theory Spec2Isabelle
  imports Main "HOL-Library.Monad_Syntax"
begin

section \<open>JavaScript values\<close>

text \<open>
  The pages handle job payloads at type \<^verbatim>\<open>any\<close> and spread objects into one another, so
  objects are modelled as property maps and property values as a small universe of
  JavaScript values. Numbers are the integers (the code only counts and compares), and a
  string's \<^verbatim>\<open>length\<close> is the length of the modelled character list.
\<close>

datatype jsval =
    JUndefined
  | JNull
  | JBool bool
  | JNum int
  | JStr string
  | JArr "jsval list"
  | JObj "string \<rightharpoonup> jsval"

type_synonym jsobj = "string \<rightharpoonup> jsval"

text \<open>\<^verbatim>\<open>obj.k\<close> on an object: a missing property reads as \<^verbatim>\<open>undefined\<close>.\<close>

definition get_field :: "jsobj \<Rightarrow> string \<Rightarrow> jsval" where
  "get_field obj k = (case obj k of None \<Rightarrow> JUndefined | Some v \<Rightarrow> v)"

text \<open>
  \<^verbatim>\<open>v.k\<close> on an arbitrary value; \<open>None\<close> is the TypeError that reading a property of
  \<^verbatim>\<open>undefined\<close> or \<^verbatim>\<open>null\<close> throws. Of the built-in properties only \<^verbatim>\<open>length\<close> is read by
  the code.
\<close>

fun member :: "jsval \<Rightarrow> string \<Rightarrow> jsval option" where
  "member JUndefined k = None"
| "member JNull k = None"
| "member (JObj m) k = Some (get_field m k)"
| "member (JArr xs) k = Some (if k = ''length'' then JNum (int (length xs)) else JUndefined)"
| "member (JStr s) k = Some (if k = ''length'' then JNum (int (length s)) else JUndefined)"
| "member (JBool b) k = Some JUndefined"
| "member (JNum n) k = Some JUndefined"

text \<open>Optional chaining \<^verbatim>\<open>v?.k\<close>: \<^verbatim>\<open>undefined\<close> when \<open>v\<close> is nullish, \<^verbatim>\<open>v.k\<close> otherwise.\<close>

fun opt_member :: "jsval \<Rightarrow> string \<Rightarrow> jsval" where
  "opt_member JUndefined k = JUndefined"
| "opt_member JNull k = JUndefined"
| "opt_member v k = (case member v k of None \<Rightarrow> JUndefined | Some x \<Rightarrow> x)"

text \<open>Truthiness, as \<^verbatim>\<open>if (v)\<close> and \<^verbatim>\<open>v || w\<close> test it.\<close>

fun truthy :: "jsval \<Rightarrow> bool" where
  "truthy JUndefined = False"
| "truthy JNull = False"
| "truthy (JBool b) = b"
| "truthy (JNum n) = (n \<noteq> 0)"
| "truthy (JStr s) = (s \<noteq> [])"
| "truthy (JArr xs) = True"
| "truthy (JObj m) = True"

fun is_undefined :: "jsval \<Rightarrow> bool" where
  "is_undefined JUndefined = True"
| "is_undefined v = False"

section \<open>Result metadata: \<^verbatim>\<open>getViolationsCount\<close> (StandardsPage.tsx)\<close>

text \<open>
  \<^verbatim>\<open>
  const getViolationsCount = (job: any): number => {
    if (job.violations_count !== undefined) return job.violations_count;
    if (job.result?.violations?.length) return job.result.violations.length;
    if (job.violations?.length) return job.violations.length;
    return 0;
  };
  \<close>
  Both call sites pass an object (the live view inside \<^verbatim>\<open>if (liveJob)\<close>, or
  \<^verbatim>\<open>liveJob || job\<close>), so the argument is a property map. The plain member accesses of the
  \<^verbatim>\<open>return\<close> statements may throw; they are kept as such.
\<close>

definition getViolationsCount :: "jsobj \<Rightarrow> jsval option" where
  "getViolationsCount job =
     (if \<not> is_undefined (get_field job ''violations_count'')
        then Some (get_field job ''violations_count'')
      else if truthy (opt_member (opt_member (get_field job ''result'') ''violations'') ''length'')
        then do { vs \<leftarrow> member (get_field job ''result'') ''violations''; member vs ''length'' }
      else if truthy (opt_member (get_field job ''violations'') ''length'')
        then member (get_field job ''violations'') ''length''
      else Some (JNum 0))"

subsection \<open>The rule table the specification describes\<close>

text \<open>
  The specification reads the function as an explicit, ordered list of probes that ends in
  a default of zero: the explicit count, the length of the nested array, the length of
  the top-level array. A probe either applies and yields the result, or passes. The
  explicit count applies when the property is not \<^verbatim>\<open>undefined\<close>; a length applies when it
  is truthy, so an empty array passes to the next probe.
\<close>

definition probe_length :: "jsval \<Rightarrow> jsval option" where
  "probe_length v =
     (let n = opt_member v ''length'' in if truthy n then Some n else None)"

definition probe_explicit_count :: "jsobj \<Rightarrow> jsval option" where
  "probe_explicit_count job =
     (case job ''violations_count'' of
        None \<Rightarrow> None
      | Some v \<Rightarrow> if is_undefined v then None else Some v)"

definition probe_nested_violations :: "jsobj \<Rightarrow> jsval option" where
  "probe_nested_violations job =
     (case job ''result'' of
        None \<Rightarrow> None
      | Some r \<Rightarrow> probe_length (opt_member r ''violations''))"

definition probe_top_violations :: "jsobj \<Rightarrow> jsval option" where
  "probe_top_violations job =
     (case job ''violations'' of None \<Rightarrow> None | Some v \<Rightarrow> probe_length v)"

fun first_applicable :: "(jsobj \<Rightarrow> jsval option) list \<Rightarrow> jsobj \<Rightarrow> jsval" where
  "first_applicable [] job = JNum 0"
| "first_applicable (p # ps) job =
     (case p job of Some v \<Rightarrow> v | None \<Rightarrow> first_applicable ps job)"

definition violations_rule_table :: "(jsobj \<Rightarrow> jsval option) list" where
  "violations_rule_table =
     [probe_explicit_count, probe_nested_violations, probe_top_violations]"

section \<open>The job list of a page\<close>

text \<open>
  \<^verbatim>\<open>
  const updateJobStatus = (jobId: string, updates: Partial<StandardsJobInfo>) => {
    setAllJobs(prev =>
      prev.map(job =>
        job.job_id === jobId ? { ...job, ...updates } : job
      )
    );
  };
  \<close>
  The same function is in all four pages. The spread \<^verbatim>\<open>{ ...job, ...updates }\<close> is the
  map \<open>job ++ updates\<close>: every property of \<open>updates\<close> overrides, every other property of
  \<open>job\<close> is kept.
\<close>

definition updateJobStatus :: "string \<Rightarrow> jsobj \<Rightarrow> jsobj list \<Rightarrow> jsobj list" where
  "updateJobStatus jobId updates prev =
     map (\<lambda>job. if get_field job ''job_id'' = JStr jobId then job ++ updates else job) prev"

subsection \<open>Durable storage keys\<close>

text \<open>
  Each page keeps one list in \<^verbatim>\<open>localStorage\<close> under a literal key:
  \<^verbatim>\<open>"testops_jobs"\<close> (TestcasesPage), \<^verbatim>\<open>"testops_autotest_jobs"\<close> (AutotestsPage),
  \<^verbatim>\<open>"testops_standards_jobs"\<close> (StandardsPage) and \<^verbatim>\<open>"testops_optimization_jobs"\<close>
  (OptimizationPage). The testcases and autotests pages hold the UI and the API jobs in
  the same list, told apart by the \<^verbatim>\<open>type\<close> property of an entry.
\<close>

datatype page = TestcasesPage | AutotestsPage | StandardsPage | OptimizationPage

fun storage_key :: "page \<Rightarrow> string" where
  "storage_key TestcasesPage = ''testops_jobs''"
| "storage_key AutotestsPage = ''testops_autotest_jobs''"
| "storage_key StandardsPage = ''testops_standards_jobs''"
| "storage_key OptimizationPage = ''testops_optimization_jobs''"

text \<open>The job kinds of the specification, the page that owns each, and its name.\<close>

datatype job_kind =
  UiTestcases | ApiTestcases | UiAutotests | ApiAutotests | Standards | Optimization

fun page_of :: "job_kind \<Rightarrow> page" where
  "page_of UiTestcases = TestcasesPage"
| "page_of ApiTestcases = TestcasesPage"
| "page_of UiAutotests = AutotestsPage"
| "page_of ApiAutotests = AutotestsPage"
| "page_of Standards = StandardsPage"
| "page_of Optimization = OptimizationPage"

fun kind_name :: "job_kind \<Rightarrow> string" where
  "kind_name UiTestcases = ''ui-testcases''"
| "kind_name ApiTestcases = ''api-testcases''"
| "kind_name UiAutotests = ''ui-autotests''"
| "kind_name ApiAutotests = ''api-autotests''"
| "kind_name Standards = ''standards''"
| "kind_name Optimization = ''optimization''"

text \<open>The key under which the list holding jobs of a kind is read and written.\<close>

definition kind_key :: "job_kind \<Rightarrow> string" where
  "kind_key k = storage_key (page_of k)"

text \<open>The key pattern of the specification, \<^verbatim>\<open>testops_<kind>_jobs\<close>.\<close>

definition key_pattern :: "string \<Rightarrow> string" where
  "key_pattern kind = ''testops_'' @ kind @ ''_jobs''"

subsection \<open>Hydration on mount\<close>

text \<open>
  \<^verbatim>\<open>
  const [allJobs, setAllJobs] = useState<StandardsJobInfo[]>([]);
  useEffect(() => {
    const savedJobs = localStorage.getItem("testops_standards_jobs");
    if (savedJobs) {
      try {
        setAllJobs(JSON.parse(savedJobs));
      } catch (e) {
        console.error("...", e);
      }
    }
  }, []);
  \<close>
  \<^verbatim>\<open>JSON.parse\<close> belongs to the platform and is a parameter: it returns a value or throws.
  The state is the job list together with the errors written to the console; the result
  is a sum so that an exception leaving the effect would be the value \<open>Inl\<close>. An empty
  string is falsy, so \<^verbatim>\<open>if (savedJobs)\<close> skips it like a missing entry.
\<close>

datatype js_error = SyntaxError | TypeError

type_synonym json_parser = "string \<Rightarrow> js_error + jsval"

definition try_catch ::
  "(js_error + 'a) \<Rightarrow> (js_error \<Rightarrow> js_error + 'a) \<Rightarrow> js_error + 'a" where
  "try_catch body handler = (case body of Inl e \<Rightarrow> handler e | Inr v \<Rightarrow> Inr v)"

definition hydrate ::
  "json_parser \<Rightarrow> (string \<rightharpoonup> string) \<Rightarrow> string \<Rightarrow> jsval \<times> js_error list
     \<Rightarrow> js_error + (jsval \<times> js_error list)" where
  "hydrate JSON_parse localStorage key st =
     (case localStorage key of
        None \<Rightarrow> Inr st
      | Some savedJobs \<Rightarrow>
          if savedJobs = [] then Inr st
          else try_catch
                 (case JSON_parse savedJobs of
                    Inl e \<Rightarrow> Inl e
                  | Inr parsed \<Rightarrow> Inr (parsed, snd st))
                 (\<lambda>e. Inr (fst st, snd st @ [e])))"

text \<open>A page mounts with the empty list and a silent console, then hydrates from its key.\<close>

definition mount_page ::
  "json_parser \<Rightarrow> (string \<rightharpoonup> string) \<Rightarrow> page \<Rightarrow> js_error + (jsval \<times> js_error list)" where
  "mount_page JSON_parse localStorage p =
     hydrate JSON_parse localStorage (storage_key p) (JArr [], [])"

text \<open>
  An instance of the parser for closed examples. It agrees with \<^verbatim>\<open>JSON.parse\<close> on the
  three texts used below: \<^verbatim>\<open>[]\<close> and \<^verbatim>\<open>[null]\<close> parse, and the empty text, like any text
  that is not JSON, is a SyntaxError.
\<close>

definition JSON_parse_sample :: json_parser where
  "JSON_parse_sample s =
     (if s = ''[]'' then Inr (JArr [])
      else if s = ''[null]'' then Inr (JArr [JNull])
      else Inl SyntaxError)"

section \<open>The polling hooks\<close>

text \<open>
  \<^verbatim>\<open>useJobWatcher(jobId, fetcher, onDone)\<close> keeps two pieces of React state, \<^verbatim>\<open>job\<close> and
  \<^verbatim>\<open>error\<close>, and drives \<^verbatim>\<open>usePolling(poll, 2000, enabled)\<close>. One instance of the hook is
  a state machine: its state is the hook's props and React state, the liveness of the
  polling effect, and the \<^verbatim>\<open>fetcher\<close> promises that have been issued and have not settled
  yet. Its events are the firing of the interval timer, the settlement of a pending
  promise, and a render of the caller with another \<^verbatim>\<open>jobId\<close>. JavaScript runs each of
  them to completion before the next, and the render that follows a state change is
  taken together with the event that caused it.

  Two logs make the effects observable: the calls of \<^verbatim>\<open>fetcher\<close> and the calls of
  \<^verbatim>\<open>onDone\<close>. A pending call remembers what its \<^verbatim>\<open>poll\<close> closure captured: the \<^verbatim>\<open>jobId\<close>, and
  the value of \<^verbatim>\<open>job\<close> in the render that created the closure, which is what a callback
  written inline in that render (as the pages write \<^verbatim>\<open>onDone\<close>) sees as \<^verbatim>\<open>liveJob\<close>.
\<close>

record fetch_call =
  fetch_jobId :: string
  fetch_liveJob :: "jsobj option"

datatype outcome =
    Resolved jsobj
  | Rejected "string option"  \<comment> \<open>the \<^verbatim>\<open>message\<close> of the thrown error, if it has one\<close>

record watcher =
  w_jobId :: "string option"  \<comment> \<open>prop \<^verbatim>\<open>jobId: string | null\<close>\<close>
  w_onDone :: bool  \<comment> \<open>whether the caller passed \<^verbatim>\<open>onDone\<close>\<close>
  w_job :: "jsobj option"  \<comment> \<open>state \<^verbatim>\<open>job: T | null\<close>\<close>
  w_error :: "string option"  \<comment> \<open>state \<^verbatim>\<open>error: string | null\<close>\<close>
  w_isActive :: bool
    \<comment> \<open>an effect instance of \<^verbatim>\<open>usePolling\<close> is live: its \<^verbatim>\<open>isActive\<close> is true and its
        interval is registered; the cleanup clears both together\<close>
  w_in_flight :: "fetch_call list"  \<comment> \<open>issued and not yet settled, oldest first\<close>
  w_fetched :: "string list"  \<comment> \<open>log: every call \<^verbatim>\<open>fetcher(jobId)\<close>, in order\<close>
  w_done_calls :: "jsobj option list"
    \<comment> \<open>log: every call of \<^verbatim>\<open>onDone\<close>, with the \<^verbatim>\<open>liveJob\<close> its closure holds\<close>

datatype event =
    IntervalFires
  | Settles nat outcome  \<comment> \<open>the pending call at this position settles\<close>
  | SetJobId "string option"

text \<open>\<^verbatim>\<open>Boolean(jobId)\<close> and \<^verbatim>\<open>!jobId\<close>: \<^verbatim>\<open>null\<close> and the empty string are falsy.\<close>

definition truthy_id :: "string option \<Rightarrow> bool" where
  "truthy_id i = (case i of None \<Rightarrow> False | Some s \<Rightarrow> s \<noteq> [])"

text \<open>\<^verbatim>\<open>job.status === "processing" || job.status === "pending"\<close>\<close>

definition pollable :: "jsobj \<Rightarrow> bool" where
  "pollable j =
     (get_field j ''status'' = JStr ''processing'' \<or> get_field j ''status'' = JStr ''pending'')"

text \<open>
  The third argument of \<^verbatim>\<open>usePolling\<close>:
  \<^verbatim>\<open>Boolean(jobId) && (!job || (job.status === "processing" || job.status === "pending"))\<close>
\<close>

definition enabled :: "watcher \<Rightarrow> bool" where
  "enabled w =
     (truthy_id (w_jobId w) \<and> (case w_job w of None \<Rightarrow> True | Some j \<Rightarrow> pollable j))"

text \<open>
  \<^verbatim>\<open>
  const poll = useCallback(async () => {
    if (!jobId) return;
    try {
      const result = await fetcher(jobId);
      setJob(result);
      setError(null);
      if (["completed", "failed"].includes(result.status) && onDone) {
        onDone();
      }
    } catch (error: any) {
      console.error("Failed to fetch job:", error);
      setError(error.message || "Failed to fetch job");
    }
  }, [fetcher, jobId, onDone]);
  \<close>
  \<open>poll_issue\<close> is \<^verbatim>\<open>poll\<close> up to its \<^verbatim>\<open>await\<close>; \<open>poll_resume\<close> is the rest, run when the
  promise settles.
\<close>

definition poll_issue :: "watcher \<Rightarrow> watcher" where
  "poll_issue w =
     (case w_jobId w of
        None \<Rightarrow> w
      | Some i \<Rightarrow>
          if i = [] then w
          else w\<lparr>w_in_flight := w_in_flight w @ [\<lparr>fetch_jobId = i, fetch_liveJob = w_job w\<rparr>],
                 w_fetched := w_fetched w @ [i]\<rparr>)"

text \<open>\<^verbatim>\<open>["completed", "failed"].includes(result.status)\<close>\<close>

definition done_status :: "jsval \<Rightarrow> bool" where
  "done_status v = (v = JStr ''completed'' \<or> v = JStr ''failed'')"

fun invokes_onDone :: "outcome \<Rightarrow> watcher \<Rightarrow> bool" where
  "invokes_onDone (Resolved result) w = (done_status (get_field result ''status'') \<and> w_onDone w)"
| "invokes_onDone (Rejected msg) w = False"

fun failure_message :: "string option \<Rightarrow> string" where
  "failure_message None = ''Failed to fetch job''"
| "failure_message (Some m) = (if m = [] then ''Failed to fetch job'' else m)"

fun poll_resume :: "fetch_call \<Rightarrow> outcome \<Rightarrow> watcher \<Rightarrow> watcher" where
  "poll_resume f (Resolved result) w =
     (let w' = w\<lparr>w_job := Some result, w_error := None\<rparr> in
      if invokes_onDone (Resolved result) w
        then w'\<lparr>w_done_calls := w_done_calls w' @ [fetch_liveJob f]\<rparr>
        else w')"
| "poll_resume f (Rejected msg) w = w\<lparr>w_error := Some (failure_message msg)\<rparr>"

text \<open>
  \<^verbatim>\<open>
  useEffect(() => {
    if (!enabled) return;
    let isActive = true;
    const tick = async () => {
      if (!isActive) return;
      try { await savedCallback.current(); } catch (e) { console.error("Polling error", e); }
    };
    const id = setInterval(tick, interval);
    tick();
    return () => { isActive = false; clearInterval(id); };
  }, [interval, enabled]);
  \<close>
  \<^verbatim>\<open>savedCallback.current\<close> is the \<^verbatim>\<open>poll\<close> of the latest render. \<^verbatim>\<open>poll\<close> catches its own
  failures, so the \<^verbatim>\<open>catch\<close> of \<^verbatim>\<open>tick\<close> has nothing to do. The effect runs again only when
  \<^verbatim>\<open>enabled\<close> changes (the interval is the constant 2000): a render with the same value of
  \<^verbatim>\<open>enabled\<close> leaves the effect instance as it is.
\<close>

definition tick :: "watcher \<Rightarrow> watcher" where
  "tick w = (if \<not> w_isActive w then w else poll_issue w)"

definition effect_run :: "watcher \<Rightarrow> watcher" where
  "effect_run w = tick (w\<lparr>w_isActive := True\<rparr>)"

definition effect_cleanup :: "watcher \<Rightarrow> watcher" where
  "effect_cleanup w = w\<lparr>w_isActive := False\<rparr>"

definition rerender :: "watcher \<Rightarrow> watcher" where
  "rerender w =
     (if enabled w = w_isActive w then w
      else if enabled w then effect_run w
      else effect_cleanup w)"

text \<open>The continuation of the pending call at position \<open>n\<close>, before the render.\<close>

definition settle :: "nat \<Rightarrow> outcome \<Rightarrow> watcher \<Rightarrow> watcher" where
  "settle n out w =
     poll_resume (w_in_flight w ! n) out
       (w\<lparr>w_in_flight := take n (w_in_flight w) @ drop (Suc n) (w_in_flight w)\<rparr>)"

fun step :: "watcher \<Rightarrow> event \<Rightarrow> watcher" where
  "step w IntervalFires = tick w"
| "step w (Settles n out) =
     (if n < length (w_in_flight w) then rerender (settle n out w) else w)"
| "step w (SetJobId i) = rerender (w\<lparr>w_jobId := i\<rparr>)"

definition run :: "watcher \<Rightarrow> event list \<Rightarrow> watcher" where
  "run w evs = foldl step w evs"

text \<open>The first render of an instance: fresh state, then the effects.\<close>

definition mount :: "string option \<Rightarrow> bool \<Rightarrow> watcher" where
  "mount i od =
     rerender \<lparr>w_jobId = i, w_onDone = od, w_job = None, w_error = None,
               w_isActive = False, w_in_flight = [], w_fetched = [], w_done_calls = []\<rparr>"

text \<open>A run on which no two calls of the watcher are ever pending together.\<close>

fun never_overlaps :: "watcher \<Rightarrow> event list \<Rightarrow> bool" where
  "never_overlaps w [] = (length (w_in_flight w) \<le> 1)"
| "never_overlaps w (e # es) = (length (w_in_flight w) \<le> 1 \<and> never_overlaps (step w e) es)"

text \<open>
  A watcher that has stopped for good: nothing is pending, no effect instance is live,
  and the last result it holds is not pollable.
\<close>

definition stopped :: "watcher \<Rightarrow> bool" where
  "stopped w =
     (w_in_flight w = [] \<and> \<not> w_isActive w \<and>
      (case w_job w of None \<Rightarrow> False | Some j \<Rightarrow> \<not> pollable j))"

section \<open>A job item of a page\<close>

text \<open>
  A page renders an item for each list entry it shows, keyed by the entry's \<^verbatim>\<open>job_id\<close>,
  and each item owns one watcher:
  \<^verbatim>\<open>
  const { job: liveJob } = useJobWatcher(
    job.status !== "completed" && job.status !== "failed" ? job.job_id : null,
    getTestcaseJob,
    () => {
      if (liveJob) {
        onUpdate({ status: liveJob.status, progress: 100, testcases: liveJob.testcases || [] });
      }
    }
  );
  \<close>
  where \<^verbatim>\<open>onUpdate\<close> is \<^verbatim>\<open>(updates) => updateJobStatus(job.job_id, updates)\<close>. The callback
  is a closure of the render that created it: its \<^verbatim>\<open>liveJob\<close> is the \<^verbatim>\<open>job\<close> the hook
  returned in that render. The standards item has the same shape with
  \<^verbatim>\<open>violations_count: getViolationsCount(liveJob)\<close> in place of \<^verbatim>\<open>testcases\<close>.
\<close>

definition watched_id :: "jsobj \<Rightarrow> string option" where
  "watched_id entry =
     (if get_field entry ''status'' \<noteq> JStr ''completed'' \<and> get_field entry ''status'' \<noteq> JStr ''failed''
      then (case get_field entry ''job_id'' of JStr i \<Rightarrow> Some i | _ \<Rightarrow> None)
      else None)"

definition testcases_onDone :: "jsobj option \<Rightarrow> string \<Rightarrow> jsobj list \<Rightarrow> jsobj list" where
  "testcases_onDone liveJob key allJobs =
     (case liveJob of
        None \<Rightarrow> allJobs
      | Some lj \<Rightarrow>
          updateJobStatus key
            [''status'' \<mapsto> get_field lj ''status'',
             ''progress'' \<mapsto> JNum 100,
             ''testcases'' \<mapsto>
                (if truthy (get_field lj ''testcases'') then get_field lj ''testcases'' else JArr [])]
            allJobs)"

text \<open>An exception in \<^verbatim>\<open>getViolationsCount\<close> would leave the callback before \<^verbatim>\<open>onUpdate\<close>.\<close>

definition standards_onDone :: "jsobj option \<Rightarrow> string \<Rightarrow> jsobj list \<Rightarrow> jsobj list" where
  "standards_onDone liveJob key allJobs =
     (case liveJob of
        None \<Rightarrow> allJobs
      | Some lj \<Rightarrow>
          (case getViolationsCount lj of
             None \<Rightarrow> allJobs
           | Some violationsCount \<Rightarrow>
               updateJobStatus key
                 [''status'' \<mapsto> get_field lj ''status'',
                  ''progress'' \<mapsto> JNum 100,
                  ''violations_count'' \<mapsto> violationsCount]
                 allJobs))"

text \<open>
  Which entries get an item. The test-case page renders the entries of the active tab
  only:
  \<^verbatim>\<open>
  const filteredJobs = allJobs.filter(job =>
    activeTab === "ui" ? job.type === "ui" : job.type === "api"
  );
  ... filteredJobs.map((job) => (<JobItem key={job.job_id} job={job} ... />))
  \<close>
  and the standards page renders every entry:
  \<^verbatim>\<open>allJobs.map((job) => (<StandardsJobItem key={job.job_id} job={job} ... />))\<close>.
  An item is one of these two components; the test-case item carries the active tab of its
  page, which is kept fixed.
\<close>

datatype tab = UiTab | ApiTab

fun filteredJobs :: "tab \<Rightarrow> jsobj list \<Rightarrow> jsobj list" where
  "filteredJobs UiTab allJobs = filter (\<lambda>job. get_field job ''type'' = JStr ''ui'') allJobs"
| "filteredJobs ApiTab allJobs = filter (\<lambda>job. get_field job ''type'' = JStr ''api'') allJobs"

datatype item_component = JobItem tab | StandardsJobItem

fun rendered_jobs :: "item_component \<Rightarrow> jsobj list \<Rightarrow> jsobj list" where
  "rendered_jobs (JobItem activeTab) allJobs = filteredJobs activeTab allJobs"
| "rendered_jobs StandardsJobItem allJobs = allJobs"

fun item_onDone ::
  "item_component \<Rightarrow> jsobj option \<Rightarrow> string \<Rightarrow> jsobj list \<Rightarrow> jsobj list" where
  "item_onDone (JobItem activeTab) = testcases_onDone"
| "item_onDone StandardsJobItem = standards_onDone"

text \<open>
  The item together with the page's list. The entry of the item is the first rendered one
  with its key; when no rendered entry has the key there is no item, and the watcher is
  given no job id, so that it never fetches.
\<close>

record item =
  it_component :: item_component
  it_key :: string
  it_allJobs :: "jsobj list"
  it_watcher :: watcher

definition item_jobId :: "item_component \<Rightarrow> string \<Rightarrow> jsobj list \<Rightarrow> string option" where
  "item_jobId c key allJobs =
     (case find (\<lambda>entry. get_field entry ''job_id'' = JStr key) (rendered_jobs c allJobs) of
        None \<Rightarrow> None
      | Some entry \<Rightarrow> watched_id entry)"

definition item_mount :: "item_component \<Rightarrow> string \<Rightarrow> jsobj list \<Rightarrow> item" where
  "item_mount c key allJobs =
     \<lparr>it_component = c, it_key = key, it_allJobs = allJobs,
      it_watcher = mount (item_jobId c key allJobs) True\<rparr>"

text \<open>
  One event of the item. When a settlement calls \<^verbatim>\<open>onDone\<close>, the callback of the component,
  applied to the live view its closure holds, updates the list in the same continuation;
  the render that follows gives the watcher the \<^verbatim>\<open>jobId\<close> computed from the updated entry.
  The item computes its \<^verbatim>\<open>jobId\<close> itself, so \<open>SetJobId\<close> is no event of an item.
\<close>

fun item_step :: "item \<Rightarrow> event \<Rightarrow> item" where
  "item_step it IntervalFires = it\<lparr>it_watcher := tick (it_watcher it)\<rparr>"
| "item_step it (Settles n out) =
     (if n < length (w_in_flight (it_watcher it)) then
        let w' = settle n out (it_watcher it);
            allJobs' =
              (if invokes_onDone out (it_watcher it)
               then item_onDone (it_component it)
                      (fetch_liveJob (w_in_flight (it_watcher it) ! n)) (it_key it) (it_allJobs it)
               else it_allJobs it)
        in \<lparr>it_component = it_component it, it_key = it_key it, it_allJobs = allJobs',
            it_watcher =
              rerender (w'\<lparr>w_jobId := item_jobId (it_component it) (it_key it) allJobs'\<rparr>)\<rparr>
      else it)"
| "item_step it (SetJobId i) = it"

definition item_run :: "item \<Rightarrow> event list \<Rightarrow> item" where
  "item_run it evs = foldl item_step it evs"

text \<open>
  Concrete items for examples. The entries are the ones the pages create on submission
  (\<^verbatim>\<open>pending\<close>, progress 10; the test-case entry of the UI form has type \<^verbatim>\<open>ui\<close>), with the
  properties the items read. \<open>processing_item\<close> and \<open>processing_standards_item\<close> are
  the items in the state they reach when the first fetch has reported \<^verbatim>\<open>processing\<close>.
\<close>

definition pending_entry :: jsobj where
  "pending_entry =
     [''job_id'' \<mapsto> JStr ''j1'', ''type'' \<mapsto> JStr ''ui'', ''status'' \<mapsto> JStr ''pending'',
      ''progress'' \<mapsto> JNum 10]"

definition pending_standards_entry :: jsobj where
  "pending_standards_entry =
     [''job_id'' \<mapsto> JStr ''s1'', ''status'' \<mapsto> JStr ''pending'', ''progress'' \<mapsto> JNum 10,
      ''files_count'' \<mapsto> JNum 2]"

definition processing_item :: item where
  "processing_item =
     \<lparr>it_component = JobItem UiTab, it_key = ''j1'', it_allJobs = [pending_entry],
      it_watcher =
        \<lparr>w_jobId = Some ''j1'', w_onDone = True,
         w_job = Some [''job_id'' \<mapsto> JStr ''j1'', ''status'' \<mapsto> JStr ''processing''],
         w_error = None, w_isActive = True, w_in_flight = [], w_fetched = [''j1''],
         w_done_calls = []\<rparr>\<rparr>"

definition processing_standards_item :: item where
  "processing_standards_item =
     \<lparr>it_component = StandardsJobItem, it_key = ''s1'', it_allJobs = [pending_standards_entry],
      it_watcher =
        \<lparr>w_jobId = Some ''s1'', w_onDone = True,
         w_job = Some [''job_id'' \<mapsto> JStr ''s1'', ''status'' \<mapsto> JStr ''processing''],
         w_error = None, w_isActive = True, w_in_flight = [], w_fetched = [''s1''],
         w_done_calls = []\<rparr>\<rparr>"

section \<open>Theorems\<close>

subsection \<open>Result metadata\<close>

lemma probe_length_array:
  "probe_length (JArr xs) = (if xs = [] then None else Some (JNum (int (length xs))))"
  by (simp add: probe_length_def)

lemma probe_length_nullish:
  "probe_length JUndefined = None" "probe_length JNull = None"
  by (simp_all add: probe_length_def)

lemma truthy_length_member:
  "truthy (opt_member v ''length'') \<Longrightarrow> member v ''length'' = Some (opt_member v ''length'')"
  by (cases v) auto

lemma truthy_nested_member:
  "truthy (opt_member (opt_member r k) ''length'') \<Longrightarrow> member r k = Some (opt_member r k)"
  by (cases r) auto


text \<open>
  Claim C8. For every job payload, \<open>getViolationsCount\<close> returns (it never throws) the
  result of the first applicable probe of the ordered table: the explicit
  \<^verbatim>\<open>violations_count\<close> first, then the length of \<^verbatim>\<open>result.violations\<close>, then the length of
  the top-level \<^verbatim>\<open>violations\<close>, and zero when no probe applies.
\<close>

theorem getViolationsCount_rule_table:
  "getViolationsCount job = Some (first_applicable violations_rule_table job)"
proof (cases "is_undefined (get_field job ''violations_count'')")
  case False
  then show ?thesis
    by (auto simp: getViolationsCount_def violations_rule_table_def probe_explicit_count_def
        get_field_def split: option.splits)
next
  case undef: True
  then have explicit: "probe_explicit_count job = None"
    by (auto simp: probe_explicit_count_def get_field_def split: option.splits)
  have nested: "probe_nested_violations job =
      probe_length (opt_member (get_field job ''result'') ''violations'')"
    by (auto simp: probe_nested_violations_def get_field_def probe_length_def
        split: option.splits)
  have top: "probe_top_violations job = probe_length (get_field job ''violations'')"
    by (auto simp: probe_top_violations_def get_field_def probe_length_def
        split: option.splits)
  show ?thesis
  proof (cases "truthy (opt_member (opt_member (get_field job ''result'') ''violations'') ''length'')")
    case True
    have "member (get_field job ''result'') ''violations'' =
        Some (opt_member (get_field job ''result'') ''violations'')"
      using True by (rule truthy_nested_member)
    moreover have "member (opt_member (get_field job ''result'') ''violations'') ''length'' =
        Some (opt_member (opt_member (get_field job ''result'') ''violations'') ''length'')"
      using True by (rule truthy_length_member)
    ultimately show ?thesis
      using undef True explicit nested
      by (simp add: getViolationsCount_def violations_rule_table_def probe_length_def)
  next
    case no_nested: False
    show ?thesis
    proof (cases "truthy (opt_member (get_field job ''violations'') ''length'')")
      case True
      then have "member (get_field job ''violations'') ''length'' =
          Some (opt_member (get_field job ''violations'') ''length'')"
        by (rule truthy_length_member)
      then show ?thesis
        using undef no_nested True explicit nested top
        by (simp add: getViolationsCount_def violations_rule_table_def probe_length_def)
    next
      case False
      then show ?thesis
        using undef no_nested explicit nested top
        by (simp add: getViolationsCount_def violations_rule_table_def probe_length_def)
    qed
  qed
qed

lemma getViolationsCount_examples:
  "getViolationsCount [''violations_count'' \<mapsto> JNum 7, ''violations'' \<mapsto> JArr [JNull]]
     = Some (JNum 7)"
  "getViolationsCount [''result'' \<mapsto> JObj [''violations'' \<mapsto> JArr [JNull, JNull, JNull]],
      ''violations'' \<mapsto> JArr [JNull]] = Some (JNum 3)"
  "getViolationsCount [''result'' \<mapsto> JObj [''violations'' \<mapsto> JArr []],
      ''violations'' \<mapsto> JArr [JNull, JNull]] = Some (JNum 2)"
  "getViolationsCount [''status'' \<mapsto> JStr ''completed''] = Some (JNum 0)"
  by (simp_all add: getViolationsCount_def get_field_def)

subsection \<open>Updating the job list\<close>

text \<open>
  Claim C9. For every job list and every job id, \<open>updateJobStatus\<close> keeps the length and
  the positions of the list; an entry whose \<^verbatim>\<open>job_id\<close> matches becomes the shallow merge
  (each property of the update overrides, every other property is kept), every other
  entry is unchanged; when no entry matches the list is returned as it is. The function is
  total: it has no failing branch.
\<close>

theorem updateJobStatus_merges_matching:
  "length (updateJobStatus jobId updates prev) = length prev \<and>
   (\<forall>i < length prev.
      (get_field (prev ! i) ''job_id'' = JStr jobId \<longrightarrow>
         (\<forall>k. (updateJobStatus jobId updates prev ! i) k =
                (case updates k of Some v \<Rightarrow> Some v | None \<Rightarrow> (prev ! i) k))) \<and>
      (get_field (prev ! i) ''job_id'' \<noteq> JStr jobId \<longrightarrow>
         updateJobStatus jobId updates prev ! i = prev ! i)) \<and>
   ((\<forall>job \<in> set prev. get_field job ''job_id'' \<noteq> JStr jobId) \<longrightarrow>
      updateJobStatus jobId updates prev = prev)"
  by (auto simp: updateJobStatus_def map_add_def map_idI split: option.splits)

theorem updateJobStatus_merges_matching_witness:
  "(0::nat) < length [[''job_id'' \<mapsto> JStr ''j1'', ''status'' \<mapsto> JStr ''pending''],
                      [''job_id'' \<mapsto> JStr ''j2'', ''status'' \<mapsto> JStr ''pending'']] \<and>
   get_field [''job_id'' \<mapsto> JStr ''j1'', ''status'' \<mapsto> JStr ''pending''] ''job_id'' = JStr ''j1'' \<and>
   (updateJobStatus ''j1'' [''status'' \<mapsto> JStr ''completed'', ''progress'' \<mapsto> JNum 100]
      [[''job_id'' \<mapsto> JStr ''j1'', ''status'' \<mapsto> JStr ''pending''],
       [''job_id'' \<mapsto> JStr ''j2'', ''status'' \<mapsto> JStr ''pending'']] ! 0) ''status''
     = Some (JStr ''completed'') \<and>
   (updateJobStatus ''j1'' [''status'' \<mapsto> JStr ''completed'', ''progress'' \<mapsto> JNum 100]
      [[''job_id'' \<mapsto> JStr ''j1'', ''status'' \<mapsto> JStr ''pending''],
       [''job_id'' \<mapsto> JStr ''j2'', ''status'' \<mapsto> JStr ''pending'']] ! 0) ''job_id''
     = Some (JStr ''j1'') \<and>
   updateJobStatus ''j1'' [''status'' \<mapsto> JStr ''completed'', ''progress'' \<mapsto> JNum 100]
      [[''job_id'' \<mapsto> JStr ''j1'', ''status'' \<mapsto> JStr ''pending''],
       [''job_id'' \<mapsto> JStr ''j2'', ''status'' \<mapsto> JStr ''pending'']] ! 1
     = [''job_id'' \<mapsto> JStr ''j2'', ''status'' \<mapsto> JStr ''pending''] \<and>
   get_field [''job_id'' \<mapsto> JStr ''j2'', ''status'' \<mapsto> JStr ''pending''] ''job_id'' \<noteq> JStr ''j1'' \<and>
   updateJobStatus ''j1'' [''status'' \<mapsto> JStr ''completed'']
      [[''job_id'' \<mapsto> JStr ''j2'', ''status'' \<mapsto> JStr ''pending'']]
     = [[''job_id'' \<mapsto> JStr ''j2'', ''status'' \<mapsto> JStr ''pending'']]"
  using updateJobStatus_merges_matching
    [of "''j1''" "[''status'' \<mapsto> JStr ''completed'', ''progress'' \<mapsto> JNum 100]"
        "[[''job_id'' \<mapsto> JStr ''j1'', ''status'' \<mapsto> JStr ''pending''],
          [''job_id'' \<mapsto> JStr ''j2'', ''status'' \<mapsto> JStr ''pending'']]"]
    updateJobStatus_merges_matching
    [of "''j1''" "[''status'' \<mapsto> JStr ''completed'']"
        "[[''job_id'' \<mapsto> JStr ''j2'', ''status'' \<mapsto> JStr ''pending'']]"]
  by (simp add: get_field_def updateJobStatus_def)

subsection \<open>Storage keys\<close>

text \<open>
  Claim C6, as the code has it. The four pages use four different keys, so two job kinds
  share a key exactly when they live on the same page. The standards and optimization
  keys are instances of the pattern; the autotests key is its instance for
  \<^verbatim>\<open>autotest\<close>, and the testcases key is \<^verbatim>\<open>testops_jobs\<close>.
\<close>

theorem storage_keys_distinct_per_page:
  "(storage_key p = storage_key q) = (p = q) \<and>
   (kind_key k = kind_key k') = (page_of k = page_of k') \<and>
   kind_key Standards = key_pattern (kind_name Standards) \<and>
   kind_key Optimization = key_pattern (kind_name Optimization) \<and>
   storage_key AutotestsPage = key_pattern ''autotest'' \<and>
   storage_key TestcasesPage = ''testops_jobs''"
proof -
  have pages: "(storage_key a = storage_key b) = (a = b)" for a b
    by (cases a; cases b; simp)
  show ?thesis
    by (simp add: pages kind_key_def key_pattern_def)
qed

text \<open>
  Claim C6 as stated fails: the UI and the API test-case kinds are different kinds that
  read and write the same key, and that key is not the pattern's instance for the kind.
\<close>

theorem kinds_share_key_counterexample:
  "UiTestcases \<noteq> ApiTestcases \<and>
   kind_key UiTestcases = kind_key ApiTestcases \<and>
   kind_key UiTestcases \<noteq> key_pattern (kind_name UiTestcases)"
  by (simp add: kind_key_def key_pattern_def)

subsection \<open>Hydration\<close>

text \<open>
  Claim C7, as the code has it. Hydration never throws. A missing entry and an empty
  string both leave the empty list and log nothing; a non-empty text that the parser
  rejects leaves the empty list and logs the error; a non-empty text that parses yields
  exactly the parsed value.
\<close>

theorem mount_page_fails_soft:
  "\<exists>jobs logged. mount_page JSON_parse localStorage p = Inr (jobs, logged) \<and>
     ((localStorage (storage_key p) = None \<or> localStorage (storage_key p) = Some [])
        \<longrightarrow> jobs = JArr [] \<and> logged = []) \<and>
     (\<forall>s e. localStorage (storage_key p) = Some s \<and> s \<noteq> [] \<and> JSON_parse s = Inl e
        \<longrightarrow> jobs = JArr [] \<and> logged = [e]) \<and>
     (\<forall>s v. localStorage (storage_key p) = Some s \<and> s \<noteq> [] \<and> JSON_parse s = Inr v
        \<longrightarrow> jobs = v \<and> logged = [])"
  by (auto simp: mount_page_def hydrate_def try_catch_def split: option.splits sum.splits)

theorem mount_page_fails_soft_witness:
  "[''testops_standards_jobs'' \<mapsto> ''{oops''] (storage_key StandardsPage) = Some ''{oops'' \<and>
   ''{oops'' \<noteq> [] \<and> JSON_parse_sample ''{oops'' = Inl SyntaxError \<and>
   mount_page JSON_parse_sample [''testops_standards_jobs'' \<mapsto> ''{oops''] StandardsPage
     = Inr (JArr [], [SyntaxError]) \<and>
   JSON_parse_sample ''[null]'' = Inr (JArr [JNull]) \<and>
   mount_page JSON_parse_sample [''testops_standards_jobs'' \<mapsto> ''[null]''] StandardsPage
     = Inr (JArr [JNull], []) \<and>
   Map.empty (storage_key StandardsPage) = (None :: string option) \<and>
   mount_page JSON_parse_sample Map.empty StandardsPage = Inr (JArr [], [])"
  using mount_page_fails_soft
    [of JSON_parse_sample "[''testops_standards_jobs'' \<mapsto> ''{oops'']" StandardsPage]
    mount_page_fails_soft
    [of JSON_parse_sample "[''testops_standards_jobs'' \<mapsto> ''[null]'']" StandardsPage]
    mount_page_fails_soft [of JSON_parse_sample Map.empty StandardsPage]
  by (auto simp: JSON_parse_sample_def)

text \<open>
  Claim C7 as stated fails at the empty string: it is not parsable as JSON, the list is
  empty, and nothing is logged, because the text is never handed to the parser.
\<close>

theorem empty_blob_not_logged_counterexample:
  "JSON_parse_sample [] = Inl SyntaxError \<and>
   mount_page JSON_parse_sample [''testops_standards_jobs'' \<mapsto> []] StandardsPage
     = Inr (JArr [], [])"
  by (simp add: JSON_parse_sample_def mount_page_def hydrate_def)

subsection \<open>The watcher: basic facts\<close>

lemma rerender_state [simp]:
  "w_job (rerender w) = w_job w"
  "w_error (rerender w) = w_error w"
  "w_done_calls (rerender w) = w_done_calls w"
  "w_jobId (rerender w) = w_jobId w"
  "w_onDone (rerender w) = w_onDone w"
  by (auto simp: rerender_def effect_run_def effect_cleanup_def tick_def poll_issue_def
      split: option.splits)

lemma enabled_rerender [simp]: "enabled (rerender w) = enabled w"
  by (simp add: enabled_def)

lemma rerender_disabled: "\<not> enabled w \<Longrightarrow> rerender w = w\<lparr>w_isActive := False\<rparr>"
  by (auto simp: rerender_def effect_cleanup_def)

lemma rerender_isActive [simp]: "w_isActive (rerender w) = enabled w"
  by (auto simp: rerender_def effect_run_def effect_cleanup_def tick_def poll_issue_def
      enabled_def truthy_id_def split: option.splits)

lemma settle_fields:
  "w_job (settle n (Resolved r) w) = Some r"
  "w_error (settle n (Resolved r) w) = None"
  "w_job (settle n (Rejected m) w) = w_job w"
  "w_error (settle n (Rejected m) w) = Some (failure_message m)"
  "w_jobId (settle n out w) = w_jobId w"
  "w_onDone (settle n out w) = w_onDone w"
  "w_isActive (settle n out w) = w_isActive w"
  "w_fetched (settle n out w) = w_fetched w"
  "w_in_flight (settle n out w) = take n (w_in_flight w) @ drop (Suc n) (w_in_flight w)"
  "w_done_calls (settle n out w) =
     w_done_calls w @ (if invokes_onDone out w then [fetch_liveJob (w_in_flight w ! n)] else [])"
  by (cases out; simp add: settle_def Let_def)+

lemma mount_active:
  "i \<noteq> [] \<Longrightarrow>
   mount (Some i) od =
     \<lparr>w_jobId = Some i, w_onDone = od, w_job = None, w_error = None, w_isActive = True,
      w_in_flight = [\<lparr>fetch_jobId = i, fetch_liveJob = None\<rparr>], w_fetched = [i],
      w_done_calls = []\<rparr>"
  by (simp add: mount_def rerender_def enabled_def truthy_id_def effect_run_def tick_def
      poll_issue_def)

lemmas watcher_eval =
  run_def tick_def poll_issue_def settle_def rerender_def enabled_def truthy_id_def
  pollable_def get_field_def done_status_def effect_cleanup_def effect_run_def

lemma terminal_not_pollable:
  "get_field r ''status'' \<in> {JStr ''completed'', JStr ''failed'', JStr ''cancelled''}
   \<Longrightarrow> \<not> pollable r"
  by (auto simp: pollable_def)

text \<open>A stopped watcher stays stopped: no event makes it fetch or call \<^verbatim>\<open>onDone\<close> again.\<close>

lemma stopped_step:
  assumes "stopped w"
  shows "stopped (step w e) \<and> w_done_calls (step w e) = w_done_calls w \<and>
         w_fetched (step w e) = w_fetched w"
proof (cases e)
  case IntervalFires
  then show ?thesis using assms by (simp add: stopped_def tick_def)
next
  case (Settles n out)
  then show ?thesis using assms by (simp add: stopped_def)
next
  case (SetJobId i)
  have "\<not> enabled (w\<lparr>w_jobId := i\<rparr>)"
    using assms by (auto simp: stopped_def enabled_def split: option.splits)
  then have "rerender (w\<lparr>w_jobId := i\<rparr>) = w\<lparr>w_jobId := i, w_isActive := False\<rparr>"
    by (simp add: rerender_disabled)
  then show ?thesis using assms SetJobId by (simp add: stopped_def)
qed

lemma stopped_run:
  "stopped w \<Longrightarrow>
   stopped (run w evs) \<and> w_done_calls (run w evs) = w_done_calls w \<and>
   w_fetched (run w evs) = w_fetched w"
proof (induction evs arbitrary: w)
  case Nil
  then show ?case by (simp add: run_def)
next
  case (Cons e es)
  from stopped_step[OF Cons.prems, of e] Cons.IH[of "step w e"]
  show ?case by (simp add: run_def)
qed

subsection \<open>Terminal results\<close>

text \<open>
  What the settlement of a pending fetch does to a watcher whose polling effect is not
  live: the render that follows starts the effect, and with it a fetch, exactly when the
  job id is non-empty and the result is pollable.
\<close>

lemma late_result_step:
  assumes "\<not> w_isActive w" and "n < length (w_in_flight w)"
  shows "w_isActive (step w (Settles n (Resolved r))) = (truthy_id (w_jobId w) \<and> pollable r) \<and>
         w_fetched (step w (Settles n (Resolved r))) =
           w_fetched w @
             (case w_jobId w of
                None \<Rightarrow> []
              | Some i \<Rightarrow> if i \<noteq> [] \<and> pollable r then [i] else [])"
proof -
  have en: "enabled (settle n (Resolved r) w) = (truthy_id (w_jobId w) \<and> pollable r)"
    by (simp add: enabled_def settle_fields)
  have "w_isActive (step w (Settles n (Resolved r))) = (truthy_id (w_jobId w) \<and> pollable r)"
    using assms(2) en by simp
  moreover have "w_fetched (step w (Settles n (Resolved r))) =
           w_fetched w @
             (case w_jobId w of
                None \<Rightarrow> []
              | Some i \<Rightarrow> if i \<noteq> [] \<and> pollable r then [i] else [])"
    using assms en
    by (auto simp: rerender_def effect_run_def effect_cleanup_def tick_def poll_issue_def
        settle_fields truthy_id_def split: option.splits)
  ultimately show ?thesis by simp
qed

text \<open>
  Claim C1, as the code has it. When a pending fetch resolves with status
  \<^verbatim>\<open>completed\<close>, \<^verbatim>\<open>failed\<close> or \<^verbatim>\<open>cancelled\<close>, the next scheduling decision finds
  \<open>enabled\<close> false and the polling effect is cleaned up; the settlement issues no fetch,
  and a firing of the interval in the state it leaves issues none. \<^verbatim>\<open>onDone\<close> is called,
  once, for \<^verbatim>\<open>completed\<close> and \<^verbatim>\<open>failed\<close> when the caller supplied it; for \<^verbatim>\<open>cancelled\<close> it is
  not called. If the fetch was the only one pending, the stop is final: whatever events
  follow, no fetch is issued, the effect stays off and \<^verbatim>\<open>onDone\<close> is not called again. If
  another fetch is still pending, its later settlement with a pollable result, on a
  non-empty job id, starts the effect again and issues one more fetch.
\<close>

theorem terminal_result_stops_polling:
  assumes "n < length (w_in_flight w)"
    and "get_field result ''status'' \<in> {JStr ''completed'', JStr ''failed'', JStr ''cancelled''}"
  shows "\<not> enabled (step w (Settles n (Resolved result))) \<and>
         \<not> w_isActive (step w (Settles n (Resolved result))) \<and>
         w_fetched (step w (Settles n (Resolved result))) = w_fetched w \<and>
         step (step w (Settles n (Resolved result))) IntervalFires =
           step w (Settles n (Resolved result)) \<and>
         w_done_calls (step w (Settles n (Resolved result))) =
           w_done_calls w @
             (if get_field result ''status'' \<noteq> JStr ''cancelled'' \<and> w_onDone w
              then [fetch_liveJob (w_in_flight w ! n)] else []) \<and>
         (length (w_in_flight w) = 1 \<longrightarrow>
            (\<forall>evs. w_fetched (run (step w (Settles n (Resolved result))) evs) = w_fetched w \<and>
                   \<not> w_isActive (run (step w (Settles n (Resolved result))) evs) \<and>
                   w_done_calls (run (step w (Settles n (Resolved result))) evs) =
                     w_done_calls (step w (Settles n (Resolved result))))) \<and>
         (\<forall>m late.
            m < length (w_in_flight (step w (Settles n (Resolved result)))) \<and>
            truthy_id (w_jobId w) \<and> pollable late \<longrightarrow>
              w_isActive (step (step w (Settles n (Resolved result))) (Settles m (Resolved late))) \<and>
              length (w_fetched
                (step (step w (Settles n (Resolved result))) (Settles m (Resolved late)))) =
                Suc (length (w_fetched w)))"
proof -
  let ?w = "step w (Settles n (Resolved result))"
  have np: "\<not> pollable result"
    by (rule terminal_not_pollable[OF assms(2)])
  have "\<not> enabled (settle n (Resolved result) w)"
    using np by (simp add: enabled_def settle_fields)
  then have st: "?w = (settle n (Resolved result) w)\<lparr>w_isActive := False\<rparr>"
    using assms(1) by (simp add: rerender_disabled)
  have dis: "\<not> enabled ?w"
    unfolding st using np by (simp add: enabled_def settle_fields)
  have inact: "\<not> w_isActive ?w"
    unfolding st by simp
  have fetched: "w_fetched ?w = w_fetched w"
    unfolding st by (simp add: settle_fields)
  have id: "w_jobId ?w = w_jobId w"
    unfolding st by (simp add: settle_fields)
  have idle: "step ?w IntervalFires = ?w"
    using inact by (simp add: tick_def)
  have calls: "w_done_calls ?w = w_done_calls w @
             (if get_field result ''status'' \<noteq> JStr ''cancelled'' \<and> w_onDone w
              then [fetch_liveJob (w_in_flight w ! n)] else [])"
    unfolding st using assms(2) by (auto simp: settle_fields done_status_def)
  have final: "w_fetched (run ?w evs) = w_fetched w \<and> \<not> w_isActive (run ?w evs) \<and>
      w_done_calls (run ?w evs) = w_done_calls ?w"
    if only: "length (w_in_flight w) = 1" for evs
  proof -
    have "n = 0" using assms(1) only by simp
    then have "stopped ?w"
      unfolding st using np only by (simp add: stopped_def settle_fields)
    from stopped_run[OF this, of evs] fetched show ?thesis
      by (simp add: stopped_def)
  qed
  have resumes: "w_isActive (step ?w (Settles m (Resolved late))) \<and>
      length (w_fetched (step ?w (Settles m (Resolved late)))) = Suc (length (w_fetched w))"
    if "m < length (w_in_flight ?w)" "truthy_id (w_jobId w)" "pollable late" for m late
    using late_result_step[OF inact that(1), of late] that(2,3) fetched id
    by (auto simp: truthy_id_def split: option.splits)
  show ?thesis
    using dis inact fetched idle calls final resumes by blast
qed

theorem terminal_result_stops_polling_witness:
  "(0::nat) < length (w_in_flight (mount (Some ''j1'') True)) \<and>
   get_field [''status'' \<mapsto> JStr ''failed''] ''status''
     \<in> {JStr ''completed'', JStr ''failed'', JStr ''cancelled''} \<and>
   length (w_in_flight (mount (Some ''j1'') True)) = 1 \<and>
   \<not> enabled (step (mount (Some ''j1'') True)
                 (Settles 0 (Resolved [''status'' \<mapsto> JStr ''failed'']))) \<and>
   w_done_calls (step (mount (Some ''j1'') True)
                   (Settles 0 (Resolved [''status'' \<mapsto> JStr ''failed'']))) = [None] \<and>
   w_fetched (run (step (mount (Some ''j1'') True)
                     (Settles 0 (Resolved [''status'' \<mapsto> JStr ''failed''])))
                [IntervalFires, SetJobId (Some ''j2''), IntervalFires]) = [''j1''] \<and>
   (1::nat) < length (w_in_flight (run (mount (Some ''j1'') True) [IntervalFires])) \<and>
   (0::nat) < length (w_in_flight (step (run (mount (Some ''j1'') True) [IntervalFires])
                 (Settles 1 (Resolved [''status'' \<mapsto> JStr ''failed''])))) \<and>
   truthy_id (w_jobId (run (mount (Some ''j1'') True) [IntervalFires])) \<and>
   pollable [''status'' \<mapsto> JStr ''processing''] \<and>
   w_isActive (step (step (run (mount (Some ''j1'') True) [IntervalFires])
                 (Settles 1 (Resolved [''status'' \<mapsto> JStr ''failed''])))
                 (Settles 0 (Resolved [''status'' \<mapsto> JStr ''processing''])))"
proof -
  let ?failed = "[''status'' \<mapsto> JStr ''failed'']"
  let ?processing = "[''status'' \<mapsto> JStr ''processing'']"
  let ?one = "mount (Some ''j1'') True"
  let ?two = "run (mount (Some ''j1'') True) [IntervalFires]"
  have status: "get_field ?failed ''status''
      \<in> {JStr ''completed'', JStr ''failed'', JStr ''cancelled''}"
    by (simp add: get_field_def)
  have one: "(0::nat) < length (w_in_flight ?one)" "length (w_in_flight ?one) = 1"
    by (simp_all add: mount_active)
  have two: "(1::nat) < length (w_in_flight ?two)" "truthy_id (w_jobId ?two)"
    by (simp_all add: mount_active watcher_eval)
  have left: "(0::nat) < length (w_in_flight (step ?two (Settles 1 (Resolved ?failed))))"
    by (simp add: mount_active watcher_eval)
  have late: "pollable ?processing"
    by (simp add: pollable_def get_field_def)
  note single = terminal_result_stops_polling [OF one(1) status]
  note overlap = terminal_result_stops_polling [OF two(1) status]
  from single have disabled: "\<not> enabled (step ?one (Settles 0 (Resolved ?failed)))"
    by blast
  from single one(2)
  have "w_fetched (run (step ?one (Settles 0 (Resolved ?failed)))
      [IntervalFires, SetJobId (Some ''j2''), IntervalFires]) = w_fetched ?one"
    by blast
  moreover have "w_fetched ?one = [''j1'']"
    by (simp add: mount_active)
  ultimately have final: "w_fetched (run (step ?one (Settles 0 (Resolved ?failed)))
      [IntervalFires, SetJobId (Some ''j2''), IntervalFires]) = [''j1'']"
    by (rule trans)
  from overlap left two(2) late
  have resumed: "w_isActive (step (step ?two (Settles 1 (Resolved ?failed)))
      (Settles 0 (Resolved ?processing)))"
    by blast
  have calls: "w_done_calls (step ?one (Settles 0 (Resolved ?failed))) = [None]"
    by (simp add: mount_active watcher_eval)
  show ?thesis
    using status one two left late disabled final resumed calls by blast
qed

text \<open>
  Claim C1 as stated fails for \<^verbatim>\<open>cancelled\<close>: the first fetch of a mounted watcher with an
  \<^verbatim>\<open>onDone\<close> resolves with status \<^verbatim>\<open>cancelled\<close>; polling stops, and \<^verbatim>\<open>onDone\<close> is not called.
\<close>

theorem cancelled_skips_onDone_counterexample:
  "w_onDone (mount (Some ''j1'') True) \<and>
   w_in_flight (mount (Some ''j1'') True) = [\<lparr>fetch_jobId = ''j1'', fetch_liveJob = None\<rparr>] \<and>
   get_field [''status'' \<mapsto> JStr ''cancelled''] ''status'' = JStr ''cancelled'' \<and>
   \<not> enabled (step (mount (Some ''j1'') True)
                 (Settles 0 (Resolved [''status'' \<mapsto> JStr ''cancelled'']))) \<and>
   w_done_calls (step (mount (Some ''j1'') True)
                   (Settles 0 (Resolved [''status'' \<mapsto> JStr ''cancelled'']))) = []"
  by (simp add: mount_active watcher_eval)

subsection \<open>How often \<^verbatim>\<open>onDone\<close> is called\<close>

lemma quiet_step:
  assumes "w_done_calls w = []" and "length (w_in_flight w) \<le> 1"
  shows "w_done_calls (step w e) = [] \<or>
         (length (w_done_calls (step w e)) = 1 \<and> stopped (step w e))"
proof (cases e)
  case IntervalFires
  then show ?thesis using assms by (auto simp: tick_def poll_issue_def split: option.splits)
next
  case (SetJobId i)
  then show ?thesis using assms by simp
next
  case (Settles n out)
  show ?thesis
  proof (cases "n < length (w_in_flight w)")
    case False
    then show ?thesis using assms Settles by simp
  next
    case True
    then have n0: "n = 0" and len: "length (w_in_flight w) = 1"
      using assms(2) by auto
    show ?thesis
    proof (cases "invokes_onDone out w")
      case False
      then show ?thesis using assms True Settles by (simp add: settle_fields)
    next
      case fires: True
      then obtain r where out: "out = Resolved r" and d: "done_status (get_field r ''status'')"
        by (cases out) auto
      have np: "\<not> pollable r"
        using d by (auto simp: done_status_def pollable_def)
      have dis: "\<not> enabled (settle n out w)"
        using np by (simp add: out enabled_def settle_fields)
      have "stopped (step w e)"
        using True Settles dis np len n0
        by (simp add: rerender_disabled stopped_def settle_fields out)
      moreover have "length (w_done_calls (step w e)) = 1"
        using True Settles fires assms(1) by (simp add: settle_fields)
      ultimately show ?thesis by simp
    qed
  qed
qed

lemma never_overlaps_quiet:
  "w_done_calls w = [] \<Longrightarrow> never_overlaps w evs \<Longrightarrow> length (w_done_calls (run w evs)) \<le> 1"
proof (induction evs arbitrary: w)
  case Nil
  then show ?case by (simp add: run_def)
next
  case (Cons e es)
  then have len: "length (w_in_flight w) \<le> 1" and rest: "never_overlaps (step w e) es"
    by auto
  from quiet_step[OF Cons.prems(1) len, of e]
  show ?case
  proof
    assume "w_done_calls (step w e) = []"
    from Cons.IH[OF this rest] show ?thesis by (simp add: run_def)
  next
    assume a: "length (w_done_calls (step w e)) = 1 \<and> stopped (step w e)"
    then have "w_done_calls (run (step w e) es) = w_done_calls (step w e)"
      using stopped_run by blast
    then show ?thesis using a by (simp add: run_def)
  qed
qed

lemma mount_done_calls: "w_done_calls (mount i od) = []"
  by (simp add: mount_def)

text \<open>
  Claim C2, as the code has it. On every run of a mounted watcher on which no two of its
  fetches are pending together, \<^verbatim>\<open>onDone\<close> is called at most once. (Nothing guards the call
  itself: each completed or failed result that settles calls it.)
\<close>

theorem onDone_at_most_once_without_overlap:
  "never_overlaps (mount i od) evs \<Longrightarrow> length (w_done_calls (run (mount i od) evs)) \<le> 1"
  by (rule never_overlaps_quiet[OF mount_done_calls])

theorem onDone_at_most_once_without_overlap_witness:
  "never_overlaps (mount (Some ''j1'') True)
     [Settles 0 (Resolved [''status'' \<mapsto> JStr ''processing'']), IntervalFires,
      Settles 0 (Resolved [''status'' \<mapsto> JStr ''completed'']), IntervalFires] \<and>
   length (w_done_calls (run (mount (Some ''j1'') True)
     [Settles 0 (Resolved [''status'' \<mapsto> JStr ''processing'']), IntervalFires,
      Settles 0 (Resolved [''status'' \<mapsto> JStr ''completed'']), IntervalFires])) = 1"
  using onDone_at_most_once_without_overlap
    [of "Some ''j1''" True
        "[Settles 0 (Resolved [''status'' \<mapsto> JStr ''processing'']), IntervalFires,
          Settles 0 (Resolved [''status'' \<mapsto> JStr ''completed'']), IntervalFires]"]
  by (simp add: mount_active watcher_eval)

text \<open>
  Claim C2 as stated fails: the interval fires while the first fetch is pending, both
  fetches resolve with status \<^verbatim>\<open>completed\<close>, and \<^verbatim>\<open>onDone\<close> is called twice.
\<close>

theorem onDone_called_twice_counterexample:
  "w_done_calls (run (mount (Some ''j1'') True)
     [IntervalFires,
      Settles 0 (Resolved [''status'' \<mapsto> JStr ''completed'']),
      Settles 0 (Resolved [''status'' \<mapsto> JStr ''completed''])]) = [None, None]"
  by (simp add: mount_active watcher_eval)

subsection \<open>Overlapping fetches\<close>

lemma interval_fires_repeatedly:
  "w_isActive w \<Longrightarrow> w_jobId w = Some i \<Longrightarrow> i \<noteq> [] \<Longrightarrow>
   run w (replicate k IntervalFires) =
     w\<lparr>w_in_flight := w_in_flight w @ replicate k \<lparr>fetch_jobId = i, fetch_liveJob = w_job w\<rparr>,
       w_fetched := w_fetched w @ replicate k i\<rparr>"
proof (induction k arbitrary: w)
  case 0
  then show ?case by (simp add: run_def)
next
  case (Suc k)
  have issued: "tick w =
      w\<lparr>w_in_flight := w_in_flight w @ [\<lparr>fetch_jobId = i, fetch_liveJob = w_job w\<rparr>],
        w_fetched := w_fetched w @ [i]\<rparr>"
    using Suc.prems by (simp add: tick_def poll_issue_def)
  have "run w (replicate (Suc k) IntervalFires) = run (tick w) (replicate k IntervalFires)"
    by (simp add: run_def)
  also have "\<dots> = (tick w)\<lparr>w_in_flight := w_in_flight (tick w) @
          replicate k \<lparr>fetch_jobId = i, fetch_liveJob = w_job (tick w)\<rparr>,
       w_fetched := w_fetched (tick w) @ replicate k i\<rparr>"
    by (rule Suc.IH) (simp_all add: issued Suc.prems)
  finally show ?case
    by (simp add: issued replicate_app_Cons_same)
qed

text \<open>
  Claim C3, as the code has it. The ticks come from \<^verbatim>\<open>setInterval\<close>, which does not wait
  for the promise of the previous tick: every firing of the interval on an active watcher
  issues a new fetch. After the mount of a watcher with a non-empty id, \<open>k\<close> firings with
  no settlement in between leave \<open>k + 1\<close> fetches of that id pending together.
\<close>

theorem interval_ticks_overlap:
  "i \<noteq> [] \<Longrightarrow>
   length (w_in_flight (run (mount (Some i) od) (replicate k IntervalFires))) = Suc k \<and>
   w_fetched (run (mount (Some i) od) (replicate k IntervalFires)) = replicate (Suc k) i"
  by (simp add: interval_fires_repeatedly mount_active)

theorem interval_ticks_overlap_witness:
  "''j1'' \<noteq> [] \<and>
   length (w_in_flight (run (mount (Some ''j1'') True) (replicate 2 IntervalFires))) = 3 \<and>
   w_fetched (run (mount (Some ''j1'') True) (replicate 2 IntervalFires))
     = [''j1'', ''j1'', ''j1'']"
  using interval_ticks_overlap [of "''j1''" True 2]
  by (simp add: numeral_2_eq_2 numeral_3_eq_3)

text \<open>
  Claim C3 as stated fails: a fetch that outlasts the interval is still pending when the
  interval fires, and then two fetches of the same id are pending together.
\<close>

theorem two_fetches_in_flight_counterexample:
  "w_in_flight (run (mount (Some ''j1'') True) [IntervalFires]) =
     [\<lparr>fetch_jobId = ''j1'', fetch_liveJob = None\<rparr>,
      \<lparr>fetch_jobId = ''j1'', fetch_liveJob = None\<rparr>] \<and>
   length (w_in_flight (run (mount (Some ''j1'') True) [IntervalFires])) = 2"
  by (simp add: mount_active watcher_eval)

subsection \<open>Settlement after disposal\<close>




subsection \<open>Switching the job id\<close>

text \<open>
  Claim C5, as the code has it. A render with another \<^verbatim>\<open>jobId\<close> leaves \<^verbatim>\<open>job\<close> and \<^verbatim>\<open>error\<close>
  as they were: the hook never resets them, and they are null only from the mount of the
  instance until its first settlement. Whenever the new \<^verbatim>\<open>jobId\<close> is null (or empty), no
  polling occurs: the watcher is disabled, its effect is cleaned up, the render issues no
  fetch, and neither does a later firing of the interval.
\<close>

theorem jobId_switch_keeps_state:
  "w_job (step w (SetJobId i)) = w_job w \<and>
   w_error (step w (SetJobId i)) = w_error w \<and>
   (\<not> truthy_id i \<longrightarrow>
      \<not> enabled (step w (SetJobId i)) \<and>
      \<not> w_isActive (step w (SetJobId i)) \<and>
      w_fetched (step w (SetJobId i)) = w_fetched w \<and>
      step (step w (SetJobId i)) IntervalFires = step w (SetJobId i)) \<and>
   w_job (mount i od) = None \<and> w_error (mount i od) = None"
proof -
  have "\<not> truthy_id i \<Longrightarrow> step w (SetJobId i) = w\<lparr>w_jobId := i, w_isActive := False\<rparr>"
    by (simp add: rerender_disabled enabled_def)
  then show ?thesis
    by (auto simp: tick_def enabled_def mount_def)
qed

theorem jobId_switch_keeps_state_witness:
  "\<not> truthy_id None \<and>
   w_job (step (run (mount (Some ''a'') True)
                  [Settles 0 (Resolved [''status'' \<mapsto> JStr ''processing''])]) (SetJobId None))
     = Some [''status'' \<mapsto> JStr ''processing''] \<and>
   \<not> enabled (step (run (mount (Some ''a'') True)
                  [Settles 0 (Resolved [''status'' \<mapsto> JStr ''processing''])]) (SetJobId None)) \<and>
   w_fetched (step (run (mount (Some ''a'') True)
                  [Settles 0 (Resolved [''status'' \<mapsto> JStr ''processing''])]) (SetJobId None))
     = [''a'']"
  using jobId_switch_keeps_state
    [of "run (mount (Some ''a'') True) [Settles 0 (Resolved [''status'' \<mapsto> JStr ''processing''])]"
        None]
  by (simp add: mount_active watcher_eval)

text \<open>
  Claim C5 as stated fails: after the first fetch of id \<^verbatim>\<open>a\<close> has resolved, switching to
  id \<^verbatim>\<open>b\<close> keeps the view fetched for \<^verbatim>\<open>a\<close>, and so does switching to null.
\<close>

theorem jobId_switch_keeps_old_view_counterexample:
  "w_job (run (mount (Some ''a'') True)
            [Settles 0 (Resolved [''job_id'' \<mapsto> JStr ''a'', ''status'' \<mapsto> JStr ''processing'']),
             SetJobId (Some ''b'')])
     = Some [''job_id'' \<mapsto> JStr ''a'', ''status'' \<mapsto> JStr ''processing''] \<and>
   w_in_flight (run (mount (Some ''a'') True)
            [Settles 0 (Resolved [''job_id'' \<mapsto> JStr ''a'', ''status'' \<mapsto> JStr ''processing'']),
             SetJobId (Some ''b'')])
     = [] \<and>
   w_job (run (mount (Some ''a'') True)
            [Settles 0 (Resolved [''job_id'' \<mapsto> JStr ''a'', ''status'' \<mapsto> JStr ''processing'']),
             SetJobId None])
     = Some [''job_id'' \<mapsto> JStr ''a'', ''status'' \<mapsto> JStr ''processing'']"
  by (simp add: mount_active watcher_eval)

subsection \<open>What the completion callback writes\<close>






lemma item_jobId_pending: "item_jobId (JobItem UiTab) ''j1'' [pending_entry] = Some ''j1''"
  by (simp add: item_jobId_def pending_entry_def watched_id_def get_field_def)

lemma item_jobId_pending_standards:
  "item_jobId StandardsJobItem ''s1'' [pending_standards_entry] = Some ''s1''"
  by (simp add: item_jobId_def pending_standards_entry_def watched_id_def get_field_def)

text \<open>An entry of the other tab has no item: nothing is ever fetched for it.\<close>

lemma other_tab_not_watched:
  "item_jobId (JobItem ApiTab) ''j1'' [pending_entry] = None \<and>
   w_fetched (it_watcher (item_run (item_mount (JobItem ApiTab) ''j1'' [pending_entry])
     [IntervalFires, IntervalFires])) = []"
  by (simp add: item_jobId_def pending_entry_def get_field_def item_mount_def item_run_def
      mount_def watcher_eval)

lemma processing_item_reached:
  "item_run (item_mount (JobItem UiTab) ''j1'' [pending_entry])
     [Settles 0 (Resolved [''job_id'' \<mapsto> JStr ''j1'', ''status'' \<mapsto> JStr ''processing''])]
   = processing_item"
  by (simp add: item_run_def item_mount_def item_jobId_pending mount_active
      processing_item_def Let_def watcher_eval)

lemma processing_standards_item_reached:
  "item_run (item_mount StandardsJobItem ''s1'' [pending_standards_entry])
     [Settles 0 (Resolved [''job_id'' \<mapsto> JStr ''s1'', ''status'' \<mapsto> JStr ''processing''])]
   = processing_standards_item"
  by (simp add: item_run_def item_mount_def item_jobId_pending_standards mount_active
      processing_standards_item_def Let_def watcher_eval)


end
